theory Spec2Isabelle
  imports Main "HOL-Library.Multiset"
begin

section \<open>Python values\<close>

text \<open>
  The functions of \<^verbatim>\<open>p_tqdm.py\<close> take an open bag of keyword arguments whose values
  have different Python types. A value is one of the following. A float is a binary64: a
  finite one is a dyadic rational, written \<open>Finite m e\<close> for \<open>m * 2 ^ e\<close>; the two
  infinities carry their sign (\<open>True\<close> is negative). A callable (a progress-bar class passed
  as \<^verbatim>\<open>tqdm=\<close>) is known by its name only.
\<close>

datatype py_float = Finite int int | Infinity bool | NaN

datatype py_value =
    PyNone
  | PyBool bool
  | PyInt int
  | PyFloat py_float
  | PyStr string
  | PyFunc string

datatype py_error =
    AssertionError string
  | ValueError string
  | TypeError string
  | OverflowError string
  | TqdmKeyError string
  | TqdmDeprecationWarning
  | Exception string

text \<open>Python's truth value of an object, as \<^verbatim>\<open>or\<close> and \<^verbatim>\<open>if\<close> test it.\<close>

fun truthy :: "py_value \<Rightarrow> bool" where
  "truthy PyNone = False"
| "truthy (PyBool b) = b"
| "truthy (PyInt n) = (n \<noteq> 0)"
| "truthy (PyFloat (Finite m e)) = (m \<noteq> 0)"
| "truthy (PyFloat (Infinity s)) = True"
| "truthy (PyFloat NaN) = True"
| "truthy (PyStr s) = (s \<noteq> [])"
| "truthy (PyFunc f) = True"

subsection \<open>Binary64 arithmetic\<close>

text \<open>
  \<^verbatim>\<open>int.bit_length()\<close>: the number of binary digits of the absolute value of an int.
\<close>

function bit_length :: "int \<Rightarrow> nat" where
  "bit_length n = (if n = 0 then 0 else Suc (bit_length (\<bar>n\<bar> div 2)))"
  by pat_completeness auto
termination
  by (relation "measure (\<lambda>n. nat \<bar>n\<bar>)") auto

declare bit_length.simps [simp del]

text \<open>
  \<open>m / 2 ^ s\<close> rounded to the nearest integer, a tie going to the even neighbour. The
  quotient and remainder are those of floor division, so the rule is the same for a
  negative \<open>m\<close>.
\<close>

definition round_half_even :: "int \<Rightarrow> nat \<Rightarrow> int" where
  "round_half_even m s =
     (let d = 2 ^ s; q = m div d; r = m mod d
      in if 2 * r < d then q
         else if d < 2 * r then q + 1
         else if even q then q else q + 1)"

text \<open>
  The binary64 nearest to the exact value \<open>m * 2 ^ e\<close>: at most 53 significant bits, no
  exponent below \<open>-1074\<close> (the subnormal range), rounded once, ties to even; a result of
  magnitude \<open>2 ^ 1024\<close> or more overflows to an infinity.
\<close>

definition to_binary64 :: "int \<Rightarrow> int \<Rightarrow> py_float" where
  "to_binary64 m e =
     (let s = max (int (bit_length m) - 53) (- 1074 - e);
          m' = (if 0 < s then round_half_even m (nat s) else m);
          e' = (if 0 < s then e + s else e)
      in if 1024 < int (bit_length m') + e' then Infinity (m' < 0)
         else Finite m' e')"

text \<open>\<^verbatim>\<open>x * y\<close> on two floats.\<close>

fun float_mul :: "py_float \<Rightarrow> py_float \<Rightarrow> py_float" where
  "float_mul (Finite m1 e1) (Finite m2 e2) = to_binary64 (m1 * m2) (e1 + e2)"
| "float_mul NaN _ = NaN"
| "float_mul _ NaN = NaN"
| "float_mul (Infinity s) (Finite m e) = (if m = 0 then NaN else Infinity (s \<noteq> (m < 0)))"
| "float_mul (Finite m e) (Infinity s) = (if m = 0 then NaN else Infinity (s \<noteq> (m < 0)))"
| "float_mul (Infinity s) (Infinity t) = Infinity (s \<noteq> t)"

text \<open>
  \<^verbatim>\<open>x * n\<close> for a float \<open>x\<close> and an int \<open>n\<close>: the int is converted to a float first,
  which raises when it is too large, then the floats are multiplied.
\<close>

definition float_mul_int :: "py_float \<Rightarrow> int \<Rightarrow> py_error + py_float" where
  "float_mul_int x n =
     (case to_binary64 n 0 of
        Finite m e \<Rightarrow> Inr (float_mul x (Finite m e))
      | _ \<Rightarrow> Inl (OverflowError ''int too large to convert to float''))"

text \<open>
  \<^verbatim>\<open>int(round(x))\<close> for a float \<open>x\<close>: Python 3 rounds half to even and returns an int;
  an infinity and a NaN raise.
\<close>

fun py_round :: "py_float \<Rightarrow> py_error + int" where
  "py_round (Finite m e) =
     Inr (if 0 \<le> e then m * 2 ^ nat e else round_half_even m (nat (- e)))"
| "py_round (Infinity s) = Inl (OverflowError ''cannot convert float infinity to integer'')"
| "py_round NaN = Inl (ValueError ''cannot convert float NaN to integer'')"

subsection \<open>Keyword arguments\<close>

text \<open>
  \<^verbatim>\<open>**kwargs\<close> is a dict with string keys, kept in insertion order.
  \<^verbatim>\<open>kwargs.pop(key, default)\<close> returns the value and the dict without the key.
\<close>

type_synonym kwargs = "(string \<times> py_value) list"

definition pop :: "string \<Rightarrow> py_value \<Rightarrow> kwargs \<Rightarrow> py_value \<times> kwargs" where
  "pop key dflt kw =
     (case map_of kw key of
        None \<Rightarrow> (dflt, kw)
      | Some v \<Rightarrow> (v, filter (\<lambda>p. fst p \<noteq> key) kw))"

definition keys :: "kwargs \<Rightarrow> string list" where
  "keys kw = map fst kw"

section \<open>Inputs\<close>

text \<open>
  An input is any Python iterable. What the code asks of it is whether it is an instance of
  \<^verbatim>\<open>collections.abc.Sized\<close> (a list, a tuple, a range: it has \<^verbatim>\<open>len\<close>) or not (a
  generator, an iterator), and the items it produces.
\<close>

datatype 'a iterable = SizedSeq "'a list" | Gen "'a list"

fun items :: "'a iterable \<Rightarrow> 'a list" where
  "items (SizedSeq xs) = xs"
| "items (Gen xs) = xs"

fun is_sized :: "'a iterable \<Rightarrow> bool" where
  "is_sized (SizedSeq xs) = True"
| "is_sized (Gen xs) = False"

definition len :: "'a iterable \<Rightarrow> int" where
  "len it = int (length (items it))"

text \<open>
  \<^verbatim>\<open>zip(*iterables)\<close>: one tuple of arguments per position, until the first input runs
  out; no tuple at all when there is no input.
\<close>

function py_zip :: "'a list list \<Rightarrow> 'a list list" where
  "py_zip xss =
     (if xss = [] \<or> [] \<in> set xss then [] else map hd xss # py_zip (map tl xss))"
  by pat_completeness auto
termination
proof (relation "measure (\<lambda>xss. length (hd xss))")
  show "wf (measure (\<lambda>xss. length (hd xss)))" by simp
next
  fix xss :: "'a list list"
  assume "\<not> (xss = [] \<or> [] \<in> set xss)"
  then have "xss \<noteq> []" and "hd xss \<noteq> []"
    by (metis, metis hd_in_set)
  then have "length (hd (map tl xss)) < length (hd xss)"
    by (cases xss) (auto simp: neq_Nil_conv)
  then show "(map tl xss, xss) \<in> measure (\<lambda>xss. length (hd xss))"
    by simp
qed

declare py_zip.simps [simp del]

section \<open>The collaborators outside the repository\<close>

text \<open>
  \<^verbatim>\<open>p_tqdm.py\<close> calls three things it does not define: \<^verbatim>\<open>cpu_count()\<close> of
  \<^verbatim>\<open>pathos.helpers\<close>, the pools \<^verbatim>\<open>ProcessPool\<close> and \<^verbatim>\<open>ThreadPool\<close> of pathos, and
  \<^verbatim>\<open>tqdm\<close>. What they answer depends on the machine and on the scheduling of the
  workers; the environment records these answers:
  \<^item> \<open>cpu_count\<close>: what \<^verbatim>\<open>cpu_count()\<close> returns;
  \<^item> \<open>finish\<close>: the time at which the worker pool finishes the work item of each index,
    which decides the order of an unordered map;
  \<^item> \<open>isatty\<close>: whether the progress bar's output stream is a terminal.
\<close>

record env =
  cpu_count :: int
  finish :: "nat \<Rightarrow> nat"
  isatty :: bool

subsection \<open>The worker pools\<close>

datatype pool_kind = ProcessPool | ThreadPool

datatype map_type = Imap | Uimap

text \<open>
  \<^verbatim>\<open>ProcessPool(n)\<close> and \<^verbatim>\<open>ThreadPool(n)\<close> start \<open>n\<close> workers. The underlying
  \<^verbatim>\<open>Pool\<close> compares \<^verbatim>\<open>n < 1\<close> and raises \<^verbatim>\<open>ValueError\<close> when it holds; a value that
  is no number cannot be compared. A bool is an int in Python.
\<close>

fun pool_init :: "py_value \<Rightarrow> py_error + int" where
  "pool_init (PyInt n) =
     (if n < 1 then Inl (ValueError ''Number of processes must be at least 1'') else Inr n)"
| "pool_init (PyBool b) =
     (if b then Inr 1 else Inl (ValueError ''Number of processes must be at least 1''))"
| "pool_init _ = Inl (TypeError ''not supported between instances'')"

text \<open>
  \<^verbatim>\<open>pool.imap(f, *iterables)\<close> and \<^verbatim>\<open>pool.uimap(f, *iterables)\<close> hand every tuple of
  \<^verbatim>\<open>zip(*iterables)\<close> to the workers and return an iterator of the results: \<^verbatim>\<open>imap\<close> in
  the order of the inputs, \<^verbatim>\<open>uimap\<close> in the order in which the workers finish (equal
  times keep the order of the inputs). A result is the value \<open>f\<close> returned or the exception
  it raised, which the iterator raises when that position is reached.
\<close>

definition pool_imap :: "('a list \<Rightarrow> py_error + 'b) \<Rightarrow> 'a list list \<Rightarrow> (py_error + 'b) list" where
  "pool_imap f work = map f work"

definition pool_uimap ::
  "(nat \<Rightarrow> nat) \<Rightarrow> ('a list \<Rightarrow> py_error + 'b) \<Rightarrow> 'a list list \<Rightarrow> (py_error + 'b) list" where
  "pool_uimap fin f work =
     map snd (sort_key fst (zip (map fin [0..<length work]) (map f work)))"

subsection \<open>The progress bar\<close>

text \<open>
  The keyword parameters of \<^verbatim>\<open>tqdm.__init__\<close> after its first, positional parameter
  \<^verbatim>\<open>iterable\<close>.
\<close>

definition tqdm_params :: "string list" where
  "tqdm_params =
     [''desc'', ''total'', ''leave'', ''file'', ''ncols'', ''mininterval'', ''maxinterval'',
      ''miniters'', ''ascii'', ''disable'', ''unit'', ''unit_scale'', ''dynamic_ncols'',
      ''smoothing'', ''bar_format'', ''initial'', ''position'', ''postfix'', ''unit_divisor'',
      ''write_bytes'', ''lock_args'', ''nrows'', ''colour'', ''delay'', ''gui'']"

text \<open>
  \<^verbatim>\<open>tqdm(stream, total=..., **kwargs)\<close>, the construction of the bar; the argument here
  is the whole keyword bag of the call, \<^verbatim>\<open>total\<close> included. Python itself refuses a
  keyword that names the positional parameter. The constructor then decides whether the
  bar is disabled (\<^verbatim>\<open>disable\<close> is true, or it is \<^verbatim>\<open>None\<close> and the stream is no
  terminal), and returns at once if it is; only an enabled bar looks at the keywords it
  does not know, and raises for them. The bar passes every item of the stream through
  unchanged.
\<close>

definition tqdm_init :: "env \<Rightarrow> kwargs \<Rightarrow> py_error option" where
  "tqdm_init env kw =
     (if ''iterable'' \<in> set (keys kw)
        then Some (TypeError ''got multiple values for argument iterable'')
      else
        let disable = (case map_of kw ''disable'' of
                         None \<Rightarrow> False
                       | Some PyNone \<Rightarrow> \<not> isatty env
                       | Some v \<Rightarrow> truthy v);
            unknown = filter (\<lambda>k. k \<notin> set tqdm_params) (keys kw)
        in if disable then None
           else if unknown = [] then None
           else if ''nested'' \<in> set unknown then Some TqdmDeprecationWarning
           else Some (TqdmKeyError ''Unknown argument(s)''))"

text \<open>
  Calling whatever was passed as \<^verbatim>\<open>tqdm=\<close>: a progress-bar class behaves as \<^verbatim>\<open>tqdm\<close>
  does, anything else is not callable.
\<close>

definition call_tqdm :: "env \<Rightarrow> py_value \<Rightarrow> kwargs \<Rightarrow> py_error option" where
  "call_tqdm env tqdm_func kw =
     (case tqdm_func of
        PyFunc name \<Rightarrow> tqdm_init env kw
      | _ \<Rightarrow> Some (TypeError ''object is not callable''))"

section \<open>Generators and what a run of one leaves behind\<close>

text \<open>
  Every function of the module is a generator or drains one. A generator does nothing
  until it is asked for its first item, runs to its next \<^verbatim>\<open>yield\<close> each time it is
  asked, and is closed where it stands when its consumer drops it. The consumer is
  therefore part of the input: it drains the generator, as \<^verbatim>\<open>list(generator)\<close> does, or
  it takes a number of items and leaves.
\<close>

datatype demand = Drain | Take nat

text \<open>
  How a run ends: the body ran to its end, it raised, or the generator was closed while
  suspended (or never started).
\<close>

datatype outcome = Finished | Raised py_error | Closed

text \<open>
  What a run did: the pool it constructed and with how many workers, the pool method it
  called, the work items handed to the function, the call of the progress bar (the callable
  and the keyword bag, \<^verbatim>\<open>total\<close> first), the items yielded, whether \<^verbatim>\<open>pool.clear()\<close>
  was called, and how the run ended.
\<close>

record ('a, 'b) run =
  spawned :: "(pool_kind \<times> int) option"
  submitted :: "map_type option"
  dispatched :: "'a list list"
  bar :: "(py_value \<times> kwargs) option"
  yielded :: "'b list"
  cleared :: bool
  outcome :: outcome

definition idle :: "('a, 'b) run" where
  "idle = \<lparr>spawned = None, submitted = None, dispatched = [], bar = None, yielded = [],
           cleared = False, outcome = Closed\<rparr>"

text \<open>The \<^verbatim>\<open>total\<close> the progress bar was given, if it was called.\<close>

definition bar_total :: "('a, 'b) run \<Rightarrow> py_value option" where
  "bar_total r = (case bar r of None \<Rightarrow> None | Some (f, kw) \<Rightarrow> map_of kw ''total'')"

text \<open>Whether workers of a pool are still alive after the run.\<close>

definition leaked :: "('a, 'b) run \<Rightarrow> bool" where
  "leaked r = (spawned r \<noteq> None \<and> \<not> cleared r)"

text \<open>What a function that drains the generator returns: the list, or the exception.\<close>

definition returned :: "('a, 'b) run \<Rightarrow> py_error + 'b list" where
  "returned r = (case outcome r of Raised e \<Rightarrow> Inl e | _ \<Rightarrow> Inr (yielded r))"

text \<open>
  The loop \<^verbatim>\<open>for item in stream: yield item\<close> under a consumer. The stream holds, per
  position, the item or the exception raised when the position is reached. The loop ends
  when the stream does; the consumer that has taken what it wanted closes the generator at
  the \<^verbatim>\<open>yield\<close>.
\<close>

fun consume :: "demand \<Rightarrow> (py_error + 'b) list \<Rightarrow> 'b list \<times> outcome" where
  "consume (Take 0) stream = ([], Closed)"
| "consume d [] = ([], Finished)"
| "consume d (Inl e # rest) = ([], Raised e)"
| "consume Drain (Inr v # rest) =
     (case consume Drain rest of (vs, out) \<Rightarrow> (v # vs, out))"
| "consume (Take (Suc k)) (Inr v # rest) =
     (case consume (Take k) rest of (vs, out) \<Rightarrow> (v # vs, out))"

section \<open>The parallel map\<close>

text \<open>
  \<^verbatim>\<open>num_cpus\<close> of \<^verbatim>\<open>_parallel\<close>: \<^verbatim>\<open>None\<close> becomes \<^verbatim>\<open>cpu_count()\<close>; a value whose type
  is exactly \<^verbatim>\<open>float\<close> becomes \<^verbatim>\<open>int(round(num_cpus * cpu_count()))\<close>; anything else is
  kept as it is.
\<close>

definition determine_num_cpus :: "env \<Rightarrow> py_value \<Rightarrow> py_error + py_value" where
  "determine_num_cpus env num_cpus =
     (case num_cpus of
        PyNone \<Rightarrow> Inr (PyInt (cpu_count env))
      | PyFloat x \<Rightarrow>
          (case float_mul_int x (cpu_count env) of
             Inl e \<Rightarrow> Inl e
           | Inr y \<Rightarrow> (case py_round y of Inl e \<Rightarrow> Inl e | Inr n \<Rightarrow> Inr (PyInt n)))
      | v \<Rightarrow> Inr v)"

text \<open>\<^verbatim>\<open>length = total or (min(lengths) if lengths else None)\<close>.\<close>

definition determine_length :: "py_value \<Rightarrow> int list \<Rightarrow> py_value" where
  "determine_length total' lengths =
     (if truthy total' then total'
      else if lengths \<noteq> [] then PyInt (min_list lengths) else PyNone)"

text \<open>
  \<^verbatim>\<open>_parallel(ordered, function, mode, *iterables, **kwargs)\<close>, statement by statement.
  An exception leaves the run as it stood when it was raised.
\<close>

definition parallel ::
  "env \<Rightarrow> bool \<Rightarrow> ('a list \<Rightarrow> py_error + 'b) \<Rightarrow> string \<Rightarrow> 'a iterable list \<Rightarrow> kwargs
     \<Rightarrow> demand \<Rightarrow> ('a, 'b) run" where
  "parallel env ordered function mode iterables kwargs d =
     (if d = Take 0 then idle
      else
        case pop ''num_cpus'' PyNone kwargs of (num_cpus, kwargs1) \<Rightarrow>
        case determine_num_cpus env num_cpus of
          Inl e \<Rightarrow> idle\<lparr>outcome := Raised e\<rparr>
        | Inr num_cpus' \<Rightarrow>
            case pop ''total'' PyNone kwargs1 of (total', kwargs2) \<Rightarrow>
            let lengths = map len (filter is_sized iterables);
                length' = determine_length total' lengths;
                map_type = (if ordered then Imap else Uimap)
            in if \<not> (mode \<noteq> [] \<and> mode \<in> set [''parallel'', ''threading''])
                 then idle\<lparr>outcome := Raised (AssertionError ''Internal error: recieved unknown mode'')\<rparr>
               else
                 case pool_init num_cpus' of
                   Inl e \<Rightarrow> idle\<lparr>outcome := Raised e\<rparr>
                 | Inr n \<Rightarrow>
                     let pool = (if mode = ''parallel'' then ProcessPool else ThreadPool);
                         r1 = idle\<lparr>spawned := Some (pool, n)\<rparr>
                     in case pop ''tqdm'' (PyFunc ''tqdm'') kwargs2 of (tqdm_func, kwargs3) \<Rightarrow>
                        let work = py_zip (map items iterables);
                            stream = (case map_type of
                                        Imap \<Rightarrow> pool_imap function work
                                      | Uimap \<Rightarrow> pool_uimap (finish env) function work);
                            bag = (''total'', length') # kwargs3;
                            r2 = r1\<lparr>submitted := Some map_type, dispatched := work,
                                    bar := Some (tqdm_func, bag)\<rparr>
                        in case call_tqdm env tqdm_func bag of
                             Some e \<Rightarrow> r2\<lparr>outcome := Raised e\<rparr>
                           | None \<Rightarrow>
                               (case consume d stream of
                                  (ys, out) \<Rightarrow>
                                    r2\<lparr>yielded := ys, outcome := out,
                                       cleared := (out = Finished)\<rparr>))"

text \<open>\<^verbatim>\<open>list(generator)\<close>.\<close>

definition list_of :: "(demand \<Rightarrow> ('a, 'b) run) \<Rightarrow> ('a, 'b) run" where
  "list_of generator = generator Drain"

definition p_imap ::
  "env \<Rightarrow> ('a list \<Rightarrow> py_error + 'b) \<Rightarrow> 'a iterable list \<Rightarrow> kwargs \<Rightarrow> demand \<Rightarrow> ('a, 'b) run" where
  "p_imap env function iterables kwargs = parallel env True function ''parallel'' iterables kwargs"

definition p_map ::
  "env \<Rightarrow> ('a list \<Rightarrow> py_error + 'b) \<Rightarrow> 'a iterable list \<Rightarrow> kwargs \<Rightarrow> ('a, 'b) run" where
  "p_map env function iterables kwargs = list_of (p_imap env function iterables kwargs)"

definition p_uimap ::
  "env \<Rightarrow> ('a list \<Rightarrow> py_error + 'b) \<Rightarrow> 'a iterable list \<Rightarrow> kwargs \<Rightarrow> demand \<Rightarrow> ('a, 'b) run" where
  "p_uimap env function iterables kwargs = parallel env False function ''parallel'' iterables kwargs"

definition p_umap ::
  "env \<Rightarrow> ('a list \<Rightarrow> py_error + 'b) \<Rightarrow> 'a iterable list \<Rightarrow> kwargs \<Rightarrow> ('a, 'b) run" where
  "p_umap env function iterables kwargs = list_of (p_uimap env function iterables kwargs)"

section \<open>The sequential map\<close>

text \<open>
  \<^verbatim>\<open>_sequential(function, *iterables, **kwargs)\<close>. \<^verbatim>\<open>min\<close> of no length at all raises.
  The keyword bag is passed on whole beside \<^verbatim>\<open>total=length\<close>, and Python refuses a call
  that gives \<^verbatim>\<open>total\<close> twice. The built-in \<^verbatim>\<open>map\<close> is lazy: the function is called for
  an item when the loop asks for it.
\<close>

definition sequential ::
  "env \<Rightarrow> ('a list \<Rightarrow> py_error + 'b) \<Rightarrow> 'a iterable list \<Rightarrow> kwargs \<Rightarrow> demand \<Rightarrow> ('a, 'b) run" where
  "sequential env function iterables kwargs d =
     (if d = Take 0 then idle
      else
        let lengths = map len (filter is_sized iterables)
        in if lengths = []
             then idle\<lparr>outcome := Raised (ValueError ''min() arg is an empty sequence'')\<rparr>
           else
             let length' = PyInt (min_list lengths);
                 work = py_zip (map items iterables)
             in if ''total'' \<in> set (keys kwargs)
                  then idle\<lparr>outcome := Raised (TypeError ''got multiple values for keyword argument total'')\<rparr>
                else
                  let bag = (''total'', length') # kwargs;
                      r1 = idle\<lparr>bar := Some (PyFunc ''tqdm'', bag)\<rparr>
                  in case tqdm_init env bag of
                       Some e \<Rightarrow> r1\<lparr>outcome := Raised e\<rparr>
                     | None \<Rightarrow>
                         (case consume d (map function work) of
                            (ys, out) \<Rightarrow>
                              r1\<lparr>yielded := ys, outcome := out,
                                 dispatched :=
                                   take (length ys + (case out of Raised e \<Rightarrow> 1 | _ \<Rightarrow> 0)) work\<rparr>))"

definition s_imap ::
  "env \<Rightarrow> ('a list \<Rightarrow> py_error + 'b) \<Rightarrow> 'a iterable list \<Rightarrow> kwargs \<Rightarrow> demand \<Rightarrow> ('a, 'b) run" where
  "s_imap env function iterables kwargs = sequential env function iterables kwargs"

definition s_map ::
  "env \<Rightarrow> ('a list \<Rightarrow> py_error + 'b) \<Rightarrow> 'a iterable list \<Rightarrow> kwargs \<Rightarrow> ('a, 'b) run" where
  "s_map env function iterables kwargs = list_of (s_imap env function iterables kwargs)"

section \<open>The threaded map\<close>

definition t_imap ::
  "env \<Rightarrow> ('a list \<Rightarrow> py_error + 'b) \<Rightarrow> 'a iterable list \<Rightarrow> kwargs \<Rightarrow> demand \<Rightarrow> ('a, 'b) run" where
  "t_imap env function iterables kwargs = parallel env True function ''threading'' iterables kwargs"

text \<open>As in the source, \<^verbatim>\<open>t_map\<close> drains \<^verbatim>\<open>p_imap\<close> and \<^verbatim>\<open>t_umap\<close> drains \<^verbatim>\<open>p_uimap\<close>.\<close>

definition t_map ::
  "env \<Rightarrow> ('a list \<Rightarrow> py_error + 'b) \<Rightarrow> 'a iterable list \<Rightarrow> kwargs \<Rightarrow> ('a, 'b) run" where
  "t_map env function iterables kwargs = list_of (p_imap env function iterables kwargs)"

definition t_uimap ::
  "env \<Rightarrow> ('a list \<Rightarrow> py_error + 'b) \<Rightarrow> 'a iterable list \<Rightarrow> kwargs \<Rightarrow> demand \<Rightarrow> ('a, 'b) run" where
  "t_uimap env function iterables kwargs = parallel env False function ''threading'' iterables kwargs"

definition t_umap ::
  "env \<Rightarrow> ('a list \<Rightarrow> py_error + 'b) \<Rightarrow> 'a iterable list \<Rightarrow> kwargs \<Rightarrow> ('a, 'b) run" where
  "t_umap env function iterables kwargs = list_of (p_uimap env function iterables kwargs)"

section \<open>Properties of the building blocks\<close>

subsection \<open>Zipping\<close>

lemma py_zip_Nil [simp]: "py_zip [] = []"
  by (simp add: py_zip.simps)

lemma py_zip_exhausted: "[] \<in> set xss \<Longrightarrow> py_zip xss = []"
  by (simp add: py_zip.simps)

lemma py_zip_step:
  "xss \<noteq> [] \<Longrightarrow> [] \<notin> set xss \<Longrightarrow> py_zip xss = map hd xss # py_zip (map tl xss)"
  by (subst py_zip.simps) simp

lemma length_py_zip:
  "xss \<noteq> [] \<Longrightarrow> length (py_zip xss) = Min (set (map length xss))"
proof (induction xss rule: py_zip.induct)
  case (1 xss)
  show ?case
  proof (cases "[] \<in> set xss")
    case True
    then have "0 \<in> set (map length xss)" by force
    then have "Min (set (map length xss)) = 0"
      by (metis List.finite_set Min_le le_zero_eq)
    with True show ?thesis by (simp add: py_zip_exhausted)
  next
    case False
    let ?L = "set (map length xss)"
    have ne: "?L \<noteq> {}" and fin: "finite ?L" using "1.prems" by auto
    have pos: "0 < Min ?L"
      using False ne fin by (subst Min_gr_iff) auto
    have "length (py_zip (map tl xss)) = Min (set (map length (map tl xss)))"
      using "1.IH" "1.prems" False by simp
    also have "set (map length (map tl xss)) = (\<lambda>n. n - 1) ` ?L"
      by (auto simp: image_iff)
    also have "Min \<dots> = Min ?L - 1"
      using "1.prems" by (intro mono_Min_commute [symmetric]) (auto simp: mono_def)
    finally show ?thesis
      using pos "1.prems" False by (simp add: py_zip_step)
  qed
qed

lemma nth_py_zip:
  "i < length (py_zip xss) \<Longrightarrow> py_zip xss ! i = map (\<lambda>xs. xs ! i) xss"
proof (induction xss arbitrary: i rule: py_zip.induct)
  case (1 xss)
  from "1.prems" have ne: "xss \<noteq> []" and full: "[] \<notin> set xss"
    by (auto simp: py_zip_exhausted)
  have step: "py_zip xss = map hd xss # py_zip (map tl xss)"
    using ne full by (rule py_zip_step)
  show ?case
  proof (cases i)
    case 0
    have "map hd xss = map (\<lambda>xs. xs ! 0) xss"
      using full by (intro map_cong refl) (metis hd_conv_nth)
    with 0 step show ?thesis by simp
  next
    case (Suc j)
    with "1.prems" step have "j < length (py_zip (map tl xss))" by simp
    then have "py_zip (map tl xss) ! j = map (\<lambda>xs. xs ! j) (map tl xss)"
      using "1.IH" ne full by simp
    also have "\<dots> = map (\<lambda>xs. xs ! Suc j) xss"
    proof -
      have "tl xs ! j = xs ! Suc j" if "xs \<in> set xss" for xs
      proof -
        from that full have "xs \<noteq> []" by auto
        then show ?thesis by (cases xs) simp_all
      qed
      then show ?thesis by simp
    qed
    finally show ?thesis using Suc step by simp
  qed
qed

lemma py_zip_positions:
  assumes "xss \<noteq> []"
  shows "py_zip xss = map (\<lambda>i. map (\<lambda>xs. xs ! i) xss) [0..<Min (set (map length xss))]"
  by (rule nth_equalityI) (simp_all add: length_py_zip assms nth_py_zip)

subsection \<open>The loop over a stream that raises nowhere\<close>

lemma consume_Drain_values: "consume Drain (map Inr vs) = (vs, Finished)"
  by (induction vs) simp_all

lemma consume_Drain_map: "consume Drain (map (\<lambda>a. Inr (g a)) work) = (map g work, Finished)"
  using consume_Drain_values [of "map g work"] by (simp add: comp_def)

lemma consume_Take_values:
  "0 < k \<Longrightarrow> k \<le> length vs \<Longrightarrow> consume (Take k) (map Inr vs) = (take k vs, Closed)"
proof (induction vs arbitrary: k)
  case Nil
  then show ?case by simp
next
  case (Cons v vs)
  then obtain j where k: "k = Suc j" by (cases k) auto
  show ?case
  proof (cases j)
    case 0
    with k show ?thesis by simp
  next
    case (Suc i)
    with k Cons.prems have "consume (Take j) (map Inr vs) = (take j vs, Closed)"
      by (intro Cons.IH) auto
    with k show ?thesis by simp
  qed
qed

lemma consume_Take_beyond:
  "length vs < k \<Longrightarrow> consume (Take k) (map Inr vs) = (vs, Finished)"
proof (induction vs arbitrary: k)
  case Nil
  then show ?case by (cases k) auto
next
  case (Cons v vs)
  then obtain j where k: "k = Suc j" by (cases k) auto
  with Cons.prems have "consume (Take j) (map Inr vs) = (vs, Finished)"
    by (intro Cons.IH) auto
  with k show ?case by simp
qed


subsection \<open>The unordered stream is a rearrangement of the ordered one\<close>

lemma mset_pool_uimap: "mset (pool_uimap fin f work) = mset (pool_imap f work)"
proof -
  let ?ts = "map fin [0..<length work]"
  have e: "map snd (zip ?ts (map f work)) = map f work"
    by (simp add: map_snd_zip)
  have "mset (pool_uimap fin f work) = mset (map snd (zip ?ts (map f work)))"
    unfolding pool_uimap_def by (simp only: mset_map mset_sort)
  also have "\<dots> = mset (pool_imap f work)"
    by (simp only: e pool_imap_def)
  finally show ?thesis .
qed

lemma pool_uimap_values:
  "\<exists>vs. pool_uimap fin (\<lambda>a. Inr (g a)) work = map Inr vs \<and> mset vs = mset (map g work)"
proof -
  let ?s = "pool_uimap fin (\<lambda>a. Inr (g a)) work"
  have m: "mset ?s = mset (map (\<lambda>a. Inr (g a)) work)"
    by (simp add: mset_pool_uimap pool_imap_def)
  then have "set ?s = set (map (\<lambda>a. Inr (g a)) work)"
    by (rule mset_eq_setD)
  then have all: "\<forall>r \<in> set ?s. r = Inr (projr r)"
    by auto
  then have s: "?s = map Inr (map projr ?s)"
    by (simp add: map_idI)
  have "mset (map projr ?s) = image_mset projr (mset ?s)"
    by simp
  also have "\<dots> = mset (map g work)"
    by (simp add: m multiset.map_comp comp_def)
  finally show ?thesis
    using s by blast
qed

subsection \<open>Binary64 values that need no rounding\<close>

lemma bit_length_le: "\<bar>n\<bar> < 2 ^ k \<Longrightarrow> bit_length n \<le> k"
proof (induction k arbitrary: n)
  case 0
  then have "n = 0" by simp
  then show ?case by (simp add: bit_length.simps)
next
  case (Suc k)
  show ?case
  proof (cases "n = 0")
    case True
    then show ?thesis by (simp add: bit_length.simps)
  next
    case False
    from Suc.prems have "\<bar>\<bar>n\<bar> div 2\<bar> < 2 ^ k" by simp
    then have "bit_length (\<bar>n\<bar> div 2) \<le> k" by (rule Suc.IH)
    with False show ?thesis by (subst bit_length.simps) simp
  qed
qed

lemma to_binary64_exact:
  assumes "\<bar>m\<bar> < 2 ^ 53" and "- 1074 \<le> e" and "e \<le> 971"
  shows "to_binary64 m e = Finite m e"
proof -
  have "bit_length m \<le> 53"
    using assms(1) by (rule bit_length_le)
  then show ?thesis
    using assms(2,3) by (simp add: to_binary64_def Let_def max_def)
qed

lemma nearest_of_quotient:
  fixes d q r :: int
  assumes "0 \<le> r" and "r < d"
  shows "\<bar>(if 2 * r < d then q else if d < 2 * r then q + 1 else if even q then q else q + 1) * d
           - (q * d + r)\<bar> * 2 \<le> d"
    and "\<bar>(if 2 * r < d then q else if d < 2 * r then q + 1 else if even q then q else q + 1) * d
           - (q * d + r)\<bar> * 2 = d \<Longrightarrow>
         even (if 2 * r < d then q else if d < 2 * r then q + 1 else if even q then q else q + 1)"
  using assms by (auto simp: algebra_simps split: if_splits)

lemma round_half_even_nearest:
  "\<bar>round_half_even m s * 2 ^ s - m\<bar> * 2 \<le> 2 ^ s"
proof -
  have e: "m div 2 ^ s * 2 ^ s + m mod 2 ^ s = m"
    by (rule div_mult_mod_eq)
  show ?thesis
    using nearest_of_quotient(1) [of "m mod 2 ^ s" "2 ^ s" "m div 2 ^ s"]
    by (simp only: round_half_even_def Let_def e) simp
qed

lemma round_half_even_tie:
  assumes "\<bar>round_half_even m s * 2 ^ s - m\<bar> * 2 = 2 ^ s"
  shows "even (round_half_even m s)"
proof -
  have e: "m div 2 ^ s * 2 ^ s + m mod 2 ^ s = m"
    by (rule div_mult_mod_eq)
  show ?thesis
    using assms nearest_of_quotient(2) [of "m mod 2 ^ s" "2 ^ s" "m div 2 ^ s"]
    by (simp only: round_half_even_def Let_def e) simp
qed

lemma determine_num_cpus_fraction:
  assumes "- 1074 \<le> e" and "e \<le> 0" and "\<bar>m * cpu_count env\<bar> < 2 ^ 53"
    and "\<bar>cpu_count env\<bar> < 2 ^ 53"
  shows "determine_num_cpus env (PyFloat (Finite m e)) =
         Inr (PyInt (round_half_even (m * cpu_count env) (nat (- e))))"
proof -
  have c: "to_binary64 (cpu_count env) 0 = Finite (cpu_count env) 0"
    using assms(4) by (intro to_binary64_exact) simp_all
  have p: "to_binary64 (m * cpu_count env) e = Finite (m * cpu_count env) e"
    using assms(1,2,3) by (intro to_binary64_exact) simp_all
  have z: "round_half_even k 0 = k" for k
    by (simp add: round_half_even_def)
  show ?thesis
    using assms(2) by (simp add: determine_num_cpus_def float_mul_int_def c p z)
qed

subsection \<open>Keywords the progress bar does not know\<close>

lemma tqdm_init_total_only: "tqdm_init env [(''total'', v)] = None"
  by (simp add: tqdm_init_def keys_def tqdm_params_def)

lemma tqdm_init_rejects:
  assumes "k \<in> set (keys bag)" and "k \<notin> set tqdm_params"
    and "map_of bag ''disable'' = None \<or> map_of bag ''disable'' = Some (PyBool False)"
  shows "\<exists>e. tqdm_init env bag = Some e"
proof -
  have "filter (\<lambda>k. k \<notin> set tqdm_params) (keys bag) \<noteq> []"
    using assms(1,2) by (auto simp: filter_empty_conv)
  then show ?thesis
    using assms(3) by (auto simp: tqdm_init_def Let_def)
qed

subsection \<open>Runs with the default options\<close>

lemma pop_empty: "pop key dflt [] = (dflt, [])"
  by (simp add: pop_def)

lemma parallel_not_started: "parallel env ordered f mode its kw (Take 0) = idle"
  by (simp add: parallel_def)

lemma sequential_not_started: "sequential env f its kw (Take 0) = idle"
  by (simp add: sequential_def)

lemma parallel_default:
  assumes "1 \<le> cpu_count env" and "mode = ''parallel'' \<or> mode = ''threading''"
    and "d \<noteq> Take 0"
  shows "parallel env ordered f mode its [] d =
     (case consume d (if ordered then pool_imap f (py_zip (map items its))
                      else pool_uimap (finish env) f (py_zip (map items its))) of
        (ys, out) \<Rightarrow>
          \<lparr>spawned = Some (if mode = ''parallel'' then ProcessPool else ThreadPool, cpu_count env),
           submitted = Some (if ordered then Imap else Uimap),
           dispatched = py_zip (map items its),
           bar = Some (PyFunc ''tqdm'',
                       [(''total'', determine_length PyNone (map len (filter is_sized its)))]),
           yielded = ys, cleared = (out = Finished), outcome = out\<rparr>)"
  using assms
  by (auto simp: parallel_def pop_empty determine_num_cpus_def call_tqdm_def
      tqdm_init_total_only idle_def Let_def split: prod.splits)


subsection \<open>Runs with any options, for a function that does not raise\<close>

lemma parallel_ordered_any_options:
  assumes "outcome (parallel env True (\<lambda>a. Inr (g a)) mode its kw Drain) = Finished"
  shows "yielded (parallel env True (\<lambda>a. Inr (g a)) mode its kw Drain) =
         map g (py_zip (map items its))"
  using assms
  by (auto simp: parallel_def idle_def Let_def pool_imap_def consume_Drain_map
      split: prod.splits sum.splits option.splits if_splits)

lemma parallel_unordered_any_options:
  "mset (yielded (parallel env False (\<lambda>a. Inr (g a)) mode its kw Drain)) =
   mset (yielded (parallel env True (\<lambda>a. Inr (g a)) mode its kw Drain)) \<and>
   outcome (parallel env False (\<lambda>a. Inr (g a)) mode its kw Drain) =
   outcome (parallel env True (\<lambda>a. Inr (g a)) mode its kw Drain)"
proof -
  obtain vs where vs: "pool_uimap (finish env) (\<lambda>a. Inr (g a)) (py_zip (map items its)) = map Inr vs"
    and m: "mset vs = mset (map g (py_zip (map items its)))"
    using pool_uimap_values by blast
  show ?thesis
    by (auto simp: parallel_def idle_def Let_def pool_imap_def consume_Drain_map vs
        consume_Drain_values m
        split: prod.splits sum.splits option.splits)
qed

subsection \<open>The pool a run constructs\<close>

lemma parallel_spawned:
  assumes "mode = ''parallel'' \<or> mode = ''threading''" and "d \<noteq> Take 0"
    and "determine_num_cpus env (fst (pop ''num_cpus'' PyNone kwargs)) = Inr (PyInt n)"
  shows "spawned (parallel env ordered f mode iterables kwargs d) =
           (if 1 \<le> n then Some (if mode = ''parallel'' then ProcessPool else ThreadPool, n)
            else None) \<and>
         (n < 1 \<longrightarrow> outcome (parallel env ordered f mode iterables kwargs d) =
            Raised (ValueError ''Number of processes must be at least 1''))"
  using assms
  by (auto simp: parallel_def Let_def idle_def split: prod.splits option.splits)

lemma parallel_raised_without_pool:
  assumes "mode = ''parallel'' \<or> mode = ''threading''" and "d \<noteq> Take 0"
    and "spawned (parallel env ordered f mode iterables kwargs d) = None"
  shows "\<exists>e. outcome (parallel env ordered f mode iterables kwargs d) = Raised e"
  using assms
  by (auto simp: parallel_def Let_def idle_def split: prod.splits option.splits sum.splits)

subsection \<open>Evaluating a run on concrete inputs\<close>

lemmas facade_defs =
  p_imap_def p_map_def p_uimap_def p_umap_def s_imap_def s_map_def
  t_imap_def t_map_def t_uimap_def t_umap_def list_of_def

lemmas run_defs =
  parallel_def sequential_def pop_def keys_def determine_num_cpus_def determine_length_def
  pool_imap_def pool_uimap_def call_tqdm_def tqdm_init_def tqdm_params_def len_def idle_def
  returned_def bar_total_def leaked_def

lemmas zip_eval = py_zip_step py_zip_exhausted

lemmas float_eval =
  float_mul_int_def to_binary64_def round_half_even_def bit_length.simps

section \<open>The claims\<close>

text \<open>
  C1. For a non-empty list of inputs and a function \<open>g\<close> that raises nowhere, the ordered
  parallel map returns exactly \<open>[g(x0), g(x1), ..., g(xn-1)]\<close>, where \<open>xi\<close> is the tuple of
  the \<open>i\<close>-th items of the inputs and \<open>n\<close> the length of the shortest input: with the
  default options on a machine with at least one CPU \<^verbatim>\<open>p_map\<close> returns that list; with any
  options, whenever the run finishes, these are the items yielded; \<^verbatim>\<open>p_imap\<close> drained
  yields what \<^verbatim>\<open>p_map\<close> returns; and the list is what the function mapped over
  \<^verbatim>\<open>zip(*iterables)\<close> gives.
\<close>

theorem p_map_ordered_results:
  assumes "iterables \<noteq> []"
  shows "(1 \<le> cpu_count env \<longrightarrow>
            returned (p_map env (\<lambda>a. Inr (g a)) iterables []) =
              Inr (map (\<lambda>i. g (map (\<lambda>it. items it ! i) iterables))
                     [0..<Min (set (map (\<lambda>it. length (items it)) iterables))])) \<and>
         (outcome (p_map env (\<lambda>a. Inr (g a)) iterables kw) = Finished \<longrightarrow>
            yielded (p_map env (\<lambda>a. Inr (g a)) iterables kw) =
              map (\<lambda>i. g (map (\<lambda>it. items it ! i) iterables))
                [0..<Min (set (map (\<lambda>it. length (items it)) iterables))]) \<and>
         yielded (p_imap env (\<lambda>a. Inr (g a)) iterables kw Drain) =
           yielded (p_map env (\<lambda>a. Inr (g a)) iterables kw) \<and>
         map (\<lambda>i. g (map (\<lambda>it. items it ! i) iterables))
           [0..<Min (set (map (\<lambda>it. length (items it)) iterables))] =
           map g (py_zip (map items iterables))"
proof -
  let ?n = "Min (set (map (\<lambda>it. length (items it)) iterables))"
  let ?work = "py_zip (map items iterables)"
  from assms have "?work = map (\<lambda>i. map (\<lambda>xs. xs ! i) (map items iterables))
      [0..<Min (set (map length (map items iterables)))]"
    by (intro py_zip_positions) simp
  then have work: "?work = map (\<lambda>i. map (\<lambda>it. items it ! i) iterables) [0..<?n]"
    by (simp add: comp_def)
  have pos: "map (\<lambda>i. g (map (\<lambda>it. items it ! i) iterables)) [0..<?n] = map g ?work"
    by (simp add: work comp_def)
  have a: "returned (p_map env (\<lambda>a. Inr (g a)) iterables []) = Inr (map g ?work)"
    if "1 \<le> cpu_count env"
    using that
    by (simp add: p_map_def list_of_def p_imap_def parallel_default pool_imap_def
        consume_Drain_map returned_def)
  have b: "yielded (p_map env (\<lambda>a. Inr (g a)) iterables kw) = map g ?work"
    if "outcome (p_map env (\<lambda>a. Inr (g a)) iterables kw) = Finished"
    using that parallel_ordered_any_options [of env g "''parallel''" iterables kw]
    by (simp add: p_map_def list_of_def p_imap_def)
  show ?thesis
    using a b pos by (simp add: p_map_def list_of_def)
qed

theorem p_map_ordered_results_witness:
  "[SizedSeq [1, 2, 3], Gen [10, 20 :: int]] \<noteq> [] \<and>
   1 \<le> cpu_count \<lparr>cpu_count = 4, finish = (\<lambda>i. 0), isatty = True\<rparr> \<and>
   returned (p_map \<lparr>cpu_count = 4, finish = (\<lambda>i. 0), isatty = True\<rparr>
               (\<lambda>a::int list. Inr (sum_list a)) [SizedSeq [1, 2, 3], Gen [10, 20]] []) = Inr [11, 22] \<and>
   outcome (p_map \<lparr>cpu_count = 4, finish = (\<lambda>i. 0), isatty = True\<rparr>
               (\<lambda>a::int list. Inr (sum_list a)) [SizedSeq [1, 2, 3], Gen [10, 20]]
               [(''total'', PyInt 5), (''num_cpus'', PyInt 2)]) = Finished \<and>
   yielded (p_map \<lparr>cpu_count = 4, finish = (\<lambda>i. 0), isatty = True\<rparr>
               (\<lambda>a::int list. Inr (sum_list a)) [SizedSeq [1, 2, 3], Gen [10, 20]]
               [(''total'', PyInt 5), (''num_cpus'', PyInt 2)]) = [11, 22]"
proof -
  have fin: "outcome (p_map \<lparr>cpu_count = 4, finish = (\<lambda>i. 0), isatty = True\<rparr>
               (\<lambda>a::int list. Inr (sum_list a)) [SizedSeq [1, 2, 3], Gen [10, 20 :: int]]
               [(''total'', PyInt 5), (''num_cpus'', PyInt 2)]) = Finished"
    by (simp add: facade_defs run_defs zip_eval)
  show ?thesis
    using fin
      p_map_ordered_results [of "[SizedSeq [1, 2, 3], Gen [10, 20 :: int]]"
        "\<lparr>cpu_count = 4, finish = (\<lambda>i. 0), isatty = True\<rparr>" "sum_list :: int list \<Rightarrow> int"
        "[(''total'', PyInt 5), (''num_cpus'', PyInt 2)]"]
    by (simp add: zip_eval)
qed

text \<open>
  C2. For a function \<open>g\<close> that raises nowhere, the unordered parallel map yields the same
  multiset of results as the ordered one on the same inputs and options, and ends the same
  way; with the default options on a machine with at least one CPU both \<^verbatim>\<open>p_umap\<close> and
  \<^verbatim>\<open>p_map\<close> return their list. Only the order may differ.
\<close>

theorem p_umap_same_multiset:
  assumes "iterables \<noteq> []"
  shows "mset (yielded (p_umap env (\<lambda>a. Inr (g a)) iterables kw)) =
           mset (yielded (p_map env (\<lambda>a. Inr (g a)) iterables kw)) \<and>
         mset (yielded (p_uimap env (\<lambda>a. Inr (g a)) iterables kw Drain)) =
           mset (yielded (p_imap env (\<lambda>a. Inr (g a)) iterables kw Drain)) \<and>
         outcome (p_umap env (\<lambda>a. Inr (g a)) iterables kw) =
           outcome (p_map env (\<lambda>a. Inr (g a)) iterables kw) \<and>
         (1 \<le> cpu_count env \<longrightarrow>
            returned (p_map env (\<lambda>a. Inr (g a)) iterables []) =
              Inr (yielded (p_map env (\<lambda>a. Inr (g a)) iterables [])) \<and>
            returned (p_umap env (\<lambda>a. Inr (g a)) iterables []) =
              Inr (yielded (p_umap env (\<lambda>a. Inr (g a)) iterables [])) \<and>
            size (mset (yielded (p_umap env (\<lambda>a. Inr (g a)) iterables []))) =
              Min (set (map (\<lambda>it. length (items it)) iterables)))"
proof -
  let ?work = "py_zip (map items iterables)"
  obtain vs where vs: "pool_uimap (finish env) (\<lambda>a. Inr (g a)) ?work = map Inr vs"
    and m: "mset vs = mset (map g ?work)"
    using pool_uimap_values by blast
  have len: "length vs = length ?work"
    using m by (metis length_map size_mset)
  have n: "length ?work = Min (set (map (\<lambda>it. length (items it)) iterables))"
    using assms length_py_zip [of "map items iterables"] by (simp add: comp_def)
  have dflt: "returned (p_map env (\<lambda>a. Inr (g a)) iterables []) =
              Inr (yielded (p_map env (\<lambda>a. Inr (g a)) iterables [])) \<and>
            returned (p_umap env (\<lambda>a. Inr (g a)) iterables []) =
              Inr (yielded (p_umap env (\<lambda>a. Inr (g a)) iterables [])) \<and>
            size (mset (yielded (p_umap env (\<lambda>a. Inr (g a)) iterables []))) =
              Min (set (map (\<lambda>it. length (items it)) iterables))"
    if "1 \<le> cpu_count env"
    using that
    by (simp add: facade_defs parallel_default pool_imap_def consume_Drain_map
        consume_Drain_values vs returned_def len n)
  show ?thesis
    using parallel_unordered_any_options [of env g "''parallel''" iterables kw] dflt
    by (simp add: facade_defs)
qed

theorem p_umap_same_multiset_witness:
  "[SizedSeq [1, 2, 3 :: int]] \<noteq> [] \<and>
   1 \<le> cpu_count \<lparr>cpu_count = 4, finish = (\<lambda>i. 10 - i), isatty = True\<rparr> \<and>
   returned (p_umap \<lparr>cpu_count = 4, finish = (\<lambda>i. 10 - i), isatty = True\<rparr>
               (\<lambda>a::int list. Inr (sum_list a)) [SizedSeq [1, 2, 3]] []) = Inr [3, 2, 1] \<and>
   returned (p_map \<lparr>cpu_count = 4, finish = (\<lambda>i. 10 - i), isatty = True\<rparr>
               (\<lambda>a::int list. Inr (sum_list a)) [SizedSeq [1, 2, 3]] []) = Inr [1, 2, 3] \<and>
   mset [3, 2, 1 :: int] = mset [1, 2, 3]"
proof -
  have u: "yielded (p_umap \<lparr>cpu_count = 4, finish = (\<lambda>i. 10 - i), isatty = True\<rparr>
               (\<lambda>a::int list. Inr (sum_list a)) [SizedSeq [1, 2, 3 :: int]] []) = [3, 2, 1]"
    by (simp add: facade_defs run_defs zip_eval upt_rec)
  have o: "yielded (p_map \<lparr>cpu_count = 4, finish = (\<lambda>i. 10 - i), isatty = True\<rparr>
               (\<lambda>a::int list. Inr (sum_list a)) [SizedSeq [1, 2, 3 :: int]] []) = [1, 2, 3]"
    by (simp add: facade_defs run_defs zip_eval)
  show ?thesis
    using p_umap_same_multiset [of "[SizedSeq [1, 2, 3 :: int]]"
        "\<lparr>cpu_count = 4, finish = (\<lambda>i. 10 - i), isatty = True\<rparr>" "sum_list :: int list \<Rightarrow> int" "[]"]
    by (simp add: u o)
qed



text \<open>
  C4. A list variant is meant to drain the iterator variant of the same name, so \<^verbatim>\<open>t_map\<close>
  should run on the thread pool as \<^verbatim>\<open>t_imap\<close> does. Evaluated on three items with the
  default options on an 8-CPU machine, \<^verbatim>\<open>t_map\<close> constructs a process pool where
  \<^verbatim>\<open>t_imap\<close> constructs a thread pool, and so does \<^verbatim>\<open>t_umap\<close> against \<^verbatim>\<open>t_uimap\<close>;
  \<^verbatim>\<open>p_map\<close>, \<^verbatim>\<open>p_umap\<close> and \<^verbatim>\<open>s_map\<close> do drain their own iterators.
\<close>

theorem t_map_runs_process_pool:
  "spawned (t_map \<lparr>cpu_count = 8, finish = (\<lambda>i. i), isatty = True\<rparr>
              (\<lambda>a::int list. Inr (sum_list a)) [SizedSeq [1, 2, 3]] []) = Some (ProcessPool, 8) \<and>
   spawned (list_of (t_imap \<lparr>cpu_count = 8, finish = (\<lambda>i. i), isatty = True\<rparr>
              (\<lambda>a::int list. Inr (sum_list a)) [SizedSeq [1, 2, 3]] [])) = Some (ThreadPool, 8) \<and>
   spawned (t_umap \<lparr>cpu_count = 8, finish = (\<lambda>i. i), isatty = True\<rparr>
              (\<lambda>a::int list. Inr (sum_list a)) [SizedSeq [1, 2, 3]] []) = Some (ProcessPool, 8) \<and>
   spawned (list_of (t_uimap \<lparr>cpu_count = 8, finish = (\<lambda>i. i), isatty = True\<rparr>
              (\<lambda>a::int list. Inr (sum_list a)) [SizedSeq [1, 2, 3]] [])) = Some (ThreadPool, 8) \<and>
   p_map env f its kw = list_of (p_imap env f its kw) \<and>
   p_umap env f its kw = list_of (p_uimap env f its kw) \<and>
   s_map env f its kw = list_of (s_imap env f its kw)"
  by (simp add: facade_defs run_defs zip_eval)

text \<open>
  C5. An explicit \<^verbatim>\<open>total=T\<close> should be the bound the progress bar is given, also for
  \<open>T = 0\<close>. Evaluated on three items: \<^verbatim>\<open>total=0\<close> gives the bar the bound 3, the length
  of the input, where \<^verbatim>\<open>total=7\<close> gives it 7; and with \<^verbatim>\<open>total=0\<close> on an unsized input
  the bar is given \<^verbatim>\<open>None\<close>.
\<close>

theorem total_zero_is_ignored:
  "bar_total (p_map \<lparr>cpu_count = 8, finish = (\<lambda>i. i), isatty = True\<rparr>
                (\<lambda>a::int list. Inr (sum_list a)) [SizedSeq [1, 2, 3]] [(''total'', PyInt 0)]) =
     Some (PyInt 3) \<and>
   bar_total (p_map \<lparr>cpu_count = 8, finish = (\<lambda>i. i), isatty = True\<rparr>
                (\<lambda>a::int list. Inr (sum_list a)) [SizedSeq [1, 2, 3]] [(''total'', PyInt 7)]) =
     Some (PyInt 7) \<and>
   bar_total (p_map \<lparr>cpu_count = 8, finish = (\<lambda>i. i), isatty = True\<rparr>
                (\<lambda>a::int list. Inr (sum_list a)) [Gen [1, 2, 3]] [(''total'', PyInt 0)]) =
     Some PyNone"
  by (simp add: facade_defs run_defs zip_eval)

text \<open>
  C6, as the code has it. In a run of \<^verbatim>\<open>_parallel\<close> that is started, with a known mode:
  an int \<^verbatim>\<open>num_cpus=n\<close> is the worker count whatever the CPU count; no \<^verbatim>\<open>num_cpus\<close> (or
  \<^verbatim>\<open>None\<close>) gives the CPU count; a float \<open>m * 2 ^ e\<close> with a fractional part (\<open>e \<le> 0\<close>), whose
  product with the CPU count is exact in binary64, gives an integer \<open>n\<close> nearest to the
  product, the even one of two equally near. Nothing raises the count to 1: whatever
  integer the rounding of a float gives, with a count of 1 or more the pool is constructed
  with exactly that many workers, with a smaller one no pool is constructed and the run
  raises.
\<close>

theorem worker_count_resolution:
  assumes "mode = ''parallel'' \<or> mode = ''threading''" and "d \<noteq> Take 0"
  shows "let r = parallel env ordered f mode iterables kwargs d;
             pool = (if mode = ''parallel'' then ProcessPool else ThreadPool);
             fl = round_half_even (m * cpu_count env) (nat (- e))
         in (map_of kwargs ''num_cpus'' = Some (PyInt n) \<longrightarrow>
               spawned r = (if 1 \<le> n then Some (pool, n) else None)) \<and>
            (map_of kwargs ''num_cpus'' = None \<or> map_of kwargs ''num_cpus'' = Some PyNone \<longrightarrow>
               spawned r = (if 1 \<le> cpu_count env then Some (pool, cpu_count env) else None)) \<and>
            (map_of kwargs ''num_cpus'' = Some (PyFloat (Finite m e)) \<and> - 1074 \<le> e \<and> e \<le> 0 \<and>
             \<bar>m * cpu_count env\<bar> < 2 ^ 53 \<and> \<bar>cpu_count env\<bar> < 2 ^ 53 \<longrightarrow>
               spawned r = (if 1 \<le> fl then Some (pool, fl) else None) \<and>
               \<bar>fl * 2 ^ nat (- e) - m * cpu_count env\<bar> * 2 \<le> 2 ^ nat (- e) \<and>
               (\<bar>fl * 2 ^ nat (- e) - m * cpu_count env\<bar> * 2 = 2 ^ nat (- e) \<longrightarrow> even fl)) \<and>
            (map_of kwargs ''num_cpus'' = Some (PyFloat x) \<and>
             determine_num_cpus env (PyFloat x) = Inr (PyInt k) \<longrightarrow>
               spawned r = (if 1 \<le> k then Some (pool, k) else None)) \<and>
            (spawned r = None \<longrightarrow> (\<exists>err. outcome r = Raised err))"
proof -
  let ?r = "parallel env ordered f mode iterables kwargs d"
  let ?pool = "if mode = ''parallel'' then ProcessPool else ThreadPool"
  let ?fl = "round_half_even (m * cpu_count env) (nat (- e))"
  have a: "spawned ?r = (if 1 \<le> n then Some (?pool, n) else None)"
    if "map_of kwargs ''num_cpus'' = Some (PyInt n)"
    using that parallel_spawned [OF assms, of env kwargs n ordered f iterables]
    by (simp add: pop_def determine_num_cpus_def)
  have b: "spawned ?r = (if 1 \<le> cpu_count env then Some (?pool, cpu_count env) else None)"
    if "map_of kwargs ''num_cpus'' = None \<or> map_of kwargs ''num_cpus'' = Some PyNone"
    using that parallel_spawned [OF assms, of env kwargs "cpu_count env" ordered f iterables]
    by (auto simp: pop_def determine_num_cpus_def)
  have c: "spawned ?r = (if 1 \<le> ?fl then Some (?pool, ?fl) else None)"
    if "map_of kwargs ''num_cpus'' = Some (PyFloat (Finite m e))" and "- 1074 \<le> e" and "e \<le> 0"
      and "\<bar>m * cpu_count env\<bar> < 2 ^ 53" and "\<bar>cpu_count env\<bar> < 2 ^ 53"
    using that(1) determine_num_cpus_fraction [OF that(2-5)]
      parallel_spawned [OF assms, of env kwargs ?fl ordered f iterables]
    by (simp add: pop_def)
  have any: "spawned ?r = (if 1 \<le> k then Some (?pool, k) else None)"
    if "map_of kwargs ''num_cpus'' = Some (PyFloat x)"
      and "determine_num_cpus env (PyFloat x) = Inr (PyInt k)"
    using that parallel_spawned [OF assms, of env kwargs k ordered f iterables]
    by (simp add: pop_def)
  have e: "\<exists>err. outcome ?r = Raised err" if "spawned ?r = None"
    using assms that by (rule parallel_raised_without_pool)
  show ?thesis
    unfolding Let_def
    using a b c any e round_half_even_nearest [of "m * cpu_count env" "nat (- e)"]
      round_half_even_tie [of "m * cpu_count env" "nat (- e)"]
    by blast
qed

theorem worker_count_resolution_witness:
  "(''parallel'' = ''parallel'' \<or> ''parallel'' = ''threading'') \<and> Drain \<noteq> Take 0 \<and>
   spawned (parallel \<lparr>cpu_count = 8, finish = (\<lambda>i. i), isatty = True\<rparr> True
              (\<lambda>a::int list. Inr (sum_list a) :: py_error + int) ''parallel'' [SizedSeq [1, 2, 3]]
              [(''num_cpus'', PyFloat (Finite 1 (- 1)))] Drain) = Some (ProcessPool, 4) \<and>
   spawned (parallel \<lparr>cpu_count = 8, finish = (\<lambda>i. i), isatty = True\<rparr> True
              (\<lambda>a::int list. Inr (sum_list a) :: py_error + int) ''parallel'' [SizedSeq [1, 2, 3]]
              [(''num_cpus'', PyInt 3)] Drain) = Some (ProcessPool, 3) \<and>
   spawned (parallel \<lparr>cpu_count = 8, finish = (\<lambda>i. i), isatty = True\<rparr> True
              (\<lambda>a::int list. Inr (sum_list a) :: py_error + int) ''parallel'' [SizedSeq [1, 2, 3]]
              [] Drain) = Some (ProcessPool, 8)"
  using
    worker_count_resolution [of "''parallel''" Drain
      "\<lparr>cpu_count = 8, finish = (\<lambda>i. i), isatty = True\<rparr>" True
      "\<lambda>a::int list. Inr (sum_list a) :: py_error + int" "[SizedSeq [1, 2, 3]]"
      "[(''num_cpus'', PyFloat (Finite 1 (- 1)))]" 1 "- 1" 0]
    worker_count_resolution [of "''parallel''" Drain
      "\<lparr>cpu_count = 8, finish = (\<lambda>i. i), isatty = True\<rparr>" True
      "\<lambda>a::int list. Inr (sum_list a) :: py_error + int" "[SizedSeq [1, 2, 3]]"
      "[(''num_cpus'', PyInt 3)]" 1 "- 1" 3]
    worker_count_resolution [of "''parallel''" Drain
      "\<lparr>cpu_count = 8, finish = (\<lambda>i. i), isatty = True\<rparr>" True
      "\<lambda>a::int list. Inr (sum_list a) :: py_error + int" "[SizedSeq [1, 2, 3]]"
      "[]" 1 "- 1" 3]
  by (simp add: Let_def round_half_even_def)

text \<open>
  C6 as stated fails: \<^verbatim>\<open>num_cpus=0.03125\<close> on 8 CPUs is \<open>0.25\<close> workers, which rounds to
  0, not to the minimum of 1 the claim promises; the pool constructor then refuses.
\<close>

theorem fraction_resolves_to_zero_workers:
  "determine_num_cpus \<lparr>cpu_count = 8, finish = (\<lambda>i. i), isatty = True\<rparr>
     (PyFloat (Finite 1 (- 5))) = Inr (PyInt 0) \<and>
   spawned (p_map \<lparr>cpu_count = 8, finish = (\<lambda>i. i), isatty = True\<rparr>
              (\<lambda>a::int list. Inr (sum_list a) :: py_error + int) [SizedSeq [1, 2, 3]]
              [(''num_cpus'', PyFloat (Finite 1 (- 5)))]) = None \<and>
   outcome (p_map \<lparr>cpu_count = 8, finish = (\<lambda>i. i), isatty = True\<rparr>
              (\<lambda>a::int list. Inr (sum_list a) :: py_error + int) [SizedSeq [1, 2, 3]]
              [(''num_cpus'', PyFloat (Finite 1 (- 5)))]) =
     Raised (ValueError ''Number of processes must be at least 1'')"
  by (simp add: facade_defs run_defs float_eval)

text \<open>
  C7. The pool should be released on every exit path. Evaluated on an 8-CPU machine with
  the default options: a consumer that takes 2 of 100 items and leaves, and a function
  that raises on the third of five items, both leave the pool constructed and
  \<^verbatim>\<open>pool.clear()\<close> not called; only the run that is drained to its end clears the pool.
\<close>

theorem pool_leaks_on_abandon_and_on_error:
  "leaked (p_imap \<lparr>cpu_count = 8, finish = (\<lambda>i. i), isatty = True\<rparr>
             (\<lambda>a::int list. Inr (sum_list a)) [SizedSeq (map int [0..<100])] [] (Take 2)) \<and>
   yielded (p_imap \<lparr>cpu_count = 8, finish = (\<lambda>i. i), isatty = True\<rparr>
             (\<lambda>a::int list. Inr (sum_list a)) [SizedSeq (map int [0..<100])] [] (Take 2)) = [0, 1] \<and>
   outcome (p_imap \<lparr>cpu_count = 8, finish = (\<lambda>i. i), isatty = True\<rparr>
             (\<lambda>a::int list. Inr (sum_list a)) [SizedSeq (map int [0..<100])] [] (Take 2)) = Closed \<and>
   leaked (p_map \<lparr>cpu_count = 8, finish = (\<lambda>i. i), isatty = True\<rparr>
             (\<lambda>a::int list. if a = [2] then Inl (Exception ''boom'') else Inr (sum_list a))
             [SizedSeq [0, 1, 2, 3, 4]] []) \<and>
   yielded (p_map \<lparr>cpu_count = 8, finish = (\<lambda>i. i), isatty = True\<rparr>
             (\<lambda>a::int list. if a = [2] then Inl (Exception ''boom'') else Inr (sum_list a))
             [SizedSeq [0, 1, 2, 3, 4]] []) = [0, 1] \<and>
   outcome (p_map \<lparr>cpu_count = 8, finish = (\<lambda>i. i), isatty = True\<rparr>
             (\<lambda>a::int list. if a = [2] then Inl (Exception ''boom'') else Inr (sum_list a))
             [SizedSeq [0, 1, 2, 3, 4]] []) = Raised (Exception ''boom'') \<and>
   \<not> leaked (p_map \<lparr>cpu_count = 8, finish = (\<lambda>i. i), isatty = True\<rparr>
             (\<lambda>a::int list. Inr (sum_list a)) [SizedSeq [0, 1, 2, 3, 4]] [])"
proof -
  let ?env = "\<lparr>cpu_count = 8, finish = (\<lambda>i. i), isatty = True\<rparr>"
  let ?f = "\<lambda>a::int list. Inr (sum_list a) :: py_error + int"
  let ?work = "py_zip [map int [0..<100]]"
  have n: "length ?work = 100"
    by (simp add: length_py_zip)
  have "?work = map (\<lambda>i. map (\<lambda>xs. xs ! i) [map int [0..<100]]) [0..<100]"
    using py_zip_positions [of "[map int [0..<100]]"] by simp
  then have t: "take 2 (map sum_list ?work) = [0, 1]"
    by (simp add: take_map upt_rec [of 0 100] upt_rec [of 1 100])
  have "consume (Take 2) (map Inr (map sum_list ?work)) = (take 2 (map sum_list ?work), Closed)"
    using n by (intro consume_Take_values) simp_all
  then have c: "consume (Take 2) (map ?f ?work) = ([0, 1], Closed)"
    by (simp add: t comp_def)
  have abandon: "p_imap ?env ?f [SizedSeq (map int [0..<100])] [] (Take 2) =
      \<lparr>spawned = Some (ProcessPool, 8), submitted = Some Imap, dispatched = ?work,
       bar = Some (PyFunc ''tqdm'', [(''total'', PyInt 100)]),
       yielded = [0, 1], cleared = False, outcome = Closed\<rparr>"
    by (simp add: p_imap_def parallel_default pool_imap_def c determine_length_def len_def)
  show ?thesis
    unfolding abandon
    by (simp add: facade_defs run_defs zip_eval)
qed

text \<open>
  C8. A mode that is neither \<^verbatim>\<open>"parallel"\<close> nor \<^verbatim>\<open>"threading"\<close>: whatever the options,
  the inputs and the consumer, no pool is constructed, no pool method is called, the
  function is handed no work item, the progress bar is not called and nothing is yielded.
  As soon as the generator is asked for its first item it raises; the exception is the
  \<^verbatim>\<open>AssertionError\<close> of the mode check (assertions are on, as by default) unless
  \<^verbatim>\<open>num_cpus\<close> is a float, whose rounding comes first and may raise instead.
\<close>

theorem unknown_mode_fails_before_any_worker:
  assumes "mode \<noteq> ''parallel''" and "mode \<noteq> ''threading''"
  shows "let r = parallel env ordered function mode iterables kwargs d in
           spawned r = None \<and> submitted r = None \<and> dispatched r = [] \<and> bar r = None \<and>
           yielded r = [] \<and> \<not> leaked r \<and>
           (d \<noteq> Take 0 \<longrightarrow> (\<exists>e. outcome r = Raised e)) \<and>
           (d \<noteq> Take 0 \<and> (\<forall>x. map_of kwargs ''num_cpus'' \<noteq> Some (PyFloat x)) \<longrightarrow>
              outcome r = Raised (AssertionError ''Internal error: recieved unknown mode''))"
  using assms
  by (auto simp: parallel_def idle_def Let_def determine_num_cpus_def pop_def leaked_def
      split: prod.splits sum.splits option.splits py_value.splits)

theorem unknown_mode_fails_before_any_worker_witness:
  "''bogus'' \<noteq> ''parallel'' \<and> ''bogus'' \<noteq> ''threading'' \<and>
   dispatched (parallel \<lparr>cpu_count = 8, finish = (\<lambda>i. i), isatty = True\<rparr> True
                 (\<lambda>a::int list. Inr (sum_list a)) ''bogus'' [SizedSeq [1, 2, 3]]
                 [(''num_cpus'', PyInt 2)] Drain) = [] \<and>
   spawned (parallel \<lparr>cpu_count = 8, finish = (\<lambda>i. i), isatty = True\<rparr> True
                 (\<lambda>a::int list. Inr (sum_list a)) ''bogus'' [SizedSeq [1, 2, 3]]
                 [(''num_cpus'', PyInt 2)] Drain) = None \<and>
   outcome (parallel \<lparr>cpu_count = 8, finish = (\<lambda>i. i), isatty = True\<rparr> True
                 (\<lambda>a::int list. Inr (sum_list a)) ''bogus'' [SizedSeq [1, 2, 3]]
                 [(''num_cpus'', PyInt 2)] Drain) =
     Raised (AssertionError ''Internal error: recieved unknown mode'')"
  using unknown_mode_fails_before_any_worker [of "''bogus''"
      "\<lparr>cpu_count = 8, finish = (\<lambda>i. i), isatty = True\<rparr>" True
      "\<lambda>a::int list. Inr (sum_list a) :: py_error + int" "[SizedSeq [1, 2, 3]]"
      "[(''num_cpus'', PyInt 2)]" Drain]
  by (simp add: Let_def)




text \<open>
  C10, as the code has it. \<^verbatim>\<open>_sequential\<close> reads no option: it never constructs a pool,
  and when it reaches the progress bar it calls \<^verbatim>\<open>tqdm\<close> with \<^verbatim>\<open>total=length\<close> followed by
  the whole keyword bag as given. A started run therefore always raises when the bag holds
  \<^verbatim>\<open>total\<close> (Python refuses the second \<^verbatim>\<open>total\<close>), and it raises when the bag holds
  \<^verbatim>\<open>num_cpus\<close> or \<^verbatim>\<open>tqdm\<close> and the bar is not disabled (\<^verbatim>\<open>disable\<close> absent or
  \<^verbatim>\<open>False\<close>); in both cases before the function is called once.
\<close>

theorem sequential_forwards_every_keyword:
  assumes "d \<noteq> Take 0"
  shows "let r = sequential env f its kw d in
           spawned r = None \<and> submitted r = None \<and> \<not> leaked r \<and>
           (''total'' \<in> set (keys kw) \<longrightarrow>
              (\<exists>e. outcome r = Raised e) \<and> dispatched r = [] \<and> yielded r = [] \<and>
              bar r = None \<and>
              (filter is_sized its \<noteq> [] \<longrightarrow>
                 outcome r = Raised (TypeError ''got multiple values for keyword argument total''))) \<and>
           (''total'' \<notin> set (keys kw) \<and> filter is_sized its \<noteq> [] \<longrightarrow>
              bar r = Some (PyFunc ''tqdm'',
                            (''total'', PyInt (min_list (map len (filter is_sized its)))) # kw)) \<and>
           ((''num_cpus'' \<in> set (keys kw) \<or> ''tqdm'' \<in> set (keys kw)) \<and>
            (map_of kw ''disable'' = None \<or> map_of kw ''disable'' = Some (PyBool False)) \<longrightarrow>
              (\<exists>e. outcome r = Raised e) \<and> dispatched r = [] \<and> yielded r = [])"
proof -
  let ?r = "sequential env f its kw d"
  let ?bag = "(''total'', PyInt (min_list (map len (filter is_sized its)))) # kw"
  have frame: "spawned ?r = None \<and> submitted ?r = None \<and> \<not> leaked ?r"
    by (auto simp: sequential_def idle_def Let_def leaked_def split: prod.splits option.splits)
  have tot: "(\<exists>e. outcome ?r = Raised e) \<and> dispatched ?r = [] \<and> yielded ?r = [] \<and>
      bar ?r = None \<and>
      (filter is_sized its \<noteq> [] \<longrightarrow>
         outcome ?r = Raised (TypeError ''got multiple values for keyword argument total''))"
    if "''total'' \<in> set (keys kw)"
    using that assms by (simp add: sequential_def idle_def Let_def)
  have fwd: "bar ?r = Some (PyFunc ''tqdm'', ?bag)"
    if "''total'' \<notin> set (keys kw)" and "filter is_sized its \<noteq> []"
    using that assms
    by (auto simp: sequential_def idle_def Let_def split: prod.splits option.splits)
  have opt: "(\<exists>e. outcome ?r = Raised e) \<and> dispatched ?r = [] \<and> yielded ?r = []"
    if k: "''num_cpus'' \<in> set (keys kw) \<or> ''tqdm'' \<in> set (keys kw)"
      and dis: "map_of kw ''disable'' = None \<or> map_of kw ''disable'' = Some (PyBool False)"
  proof -
    obtain k where "k \<in> set (keys ?bag)" and "k \<notin> set tqdm_params"
      using k by (auto simp: keys_def tqdm_params_def)
    moreover have "map_of ?bag ''disable'' = None \<or> map_of ?bag ''disable'' = Some (PyBool False)"
      using dis by simp
    ultimately obtain e where "tqdm_init env ?bag = Some e"
      using tqdm_init_rejects by blast
    then show ?thesis
      using assms by (simp add: sequential_def idle_def Let_def)
  qed
  show ?thesis
    unfolding Let_def using frame tot fwd opt by blast
qed

theorem sequential_forwards_every_keyword_witness:
  "Drain \<noteq> Take 0 \<and>
   ''total'' \<in> set (keys [(''total'', PyInt 5)]) \<and>
   outcome (sequential \<lparr>cpu_count = 8, finish = (\<lambda>i. i), isatty = True\<rparr>
              (\<lambda>a::int list. Inr (sum_list a) :: py_error + int) [SizedSeq [1, 2]]
              [(''total'', PyInt 5)] Drain) =
     Raised (TypeError ''got multiple values for keyword argument total'') \<and>
   ''num_cpus'' \<in> set (keys [(''num_cpus'', PyInt 2)]) \<and>
   map_of [(''num_cpus'', PyInt 2)] ''disable'' = None \<and>
   (\<exists>e. outcome (sequential \<lparr>cpu_count = 8, finish = (\<lambda>i. i), isatty = True\<rparr>
              (\<lambda>a::int list. Inr (sum_list a) :: py_error + int) [SizedSeq [1, 2]]
              [(''num_cpus'', PyInt 2)] Drain) = Raised e) \<and>
   dispatched (sequential \<lparr>cpu_count = 8, finish = (\<lambda>i. i), isatty = True\<rparr>
              (\<lambda>a::int list. Inr (sum_list a) :: py_error + int) [SizedSeq [1, 2]]
              [(''num_cpus'', PyInt 2)] Drain) = [] \<and>
   bar (sequential \<lparr>cpu_count = 8, finish = (\<lambda>i. i), isatty = True\<rparr>
              (\<lambda>a::int list. Inr (sum_list a) :: py_error + int) [SizedSeq [1, 2]]
              [(''num_cpus'', PyInt 2)] Drain) =
     Some (PyFunc ''tqdm'', [(''total'', PyInt 2), (''num_cpus'', PyInt 2)])"
  using
    sequential_forwards_every_keyword [of Drain
      "\<lparr>cpu_count = 8, finish = (\<lambda>i. i), isatty = True\<rparr>"
      "\<lambda>a::int list. Inr (sum_list a) :: py_error + int" "[SizedSeq [1, 2]]"
      "[(''total'', PyInt 5)]"]
    sequential_forwards_every_keyword [of Drain
      "\<lparr>cpu_count = 8, finish = (\<lambda>i. i), isatty = True\<rparr>"
      "\<lambda>a::int list. Inr (sum_list a) :: py_error + int" "[SizedSeq [1, 2]]"
      "[(''num_cpus'', PyInt 2)]"]
  by (simp add: Let_def keys_def len_def)

text \<open>
  C10 as stated fails: \<^verbatim>\<open>num_cpus\<close> or \<^verbatim>\<open>tqdm\<close> passed together with \<^verbatim>\<open>disable=True\<close>
  raises nothing. The disabled bar does not look at the keywords it does not know, and
  \<^verbatim>\<open>s_map\<close> returns its results with the option ignored.
\<close>

theorem s_map_ignores_options_when_bar_disabled:
  "returned (s_map \<lparr>cpu_count = 8, finish = (\<lambda>i. i), isatty = True\<rparr>
               (\<lambda>a::int list. Inr (sum_list a) :: py_error + int) [SizedSeq [1, 2]]
               [(''num_cpus'', PyInt 2), (''disable'', PyBool True)]) = Inr [1, 2] \<and>
   returned (s_map \<lparr>cpu_count = 8, finish = (\<lambda>i. i), isatty = True\<rparr>
               (\<lambda>a::int list. Inr (sum_list a) :: py_error + int) [SizedSeq [1, 2]]
               [(''tqdm'', PyFunc ''tqdm_notebook''), (''disable'', PyBool True)]) = Inr [1, 2] \<and>
   spawned (s_map \<lparr>cpu_count = 8, finish = (\<lambda>i. i), isatty = True\<rparr>
               (\<lambda>a::int list. Inr (sum_list a) :: py_error + int) [SizedSeq [1, 2]]
               [(''num_cpus'', PyInt 2), (''disable'', PyBool True)]) = None"
  by (simp add: facade_defs run_defs zip_eval Let_def)

section \<open>Further properties\<close>

lemma consume_Drain_prefix:
  "consume Drain stream =
     (map projr (takeWhile (\<lambda>x. \<not> isl x) stream),
      case dropWhile (\<lambda>x. \<not> isl x) stream of [] \<Rightarrow> Finished | x # rest \<Rightarrow> Raised (projl x))"
proof (induction stream)
  case Nil
  show ?case by simp
next
  case (Cons x stream)
  then show ?case by (cases x) simp_all
qed

text \<open>
  An explicit \<^verbatim>\<open>total=T\<close> other than 0 is the bound the progress bar of \<^verbatim>\<open>_parallel\<close>
  is given, whatever the inputs are.
\<close>

theorem explicit_total_is_the_bound:
  assumes "1 \<le> cpu_count env" and "mode = ''parallel'' \<or> mode = ''threading''"
    and "d \<noteq> Take 0" and "T \<noteq> 0"
  shows "bar_total (parallel env ordered f mode its [(''total'', PyInt T)] d) = Some (PyInt T)"
  using assms
  by (auto simp: parallel_def pop_def determine_num_cpus_def determine_length_def call_tqdm_def
      tqdm_init_def keys_def tqdm_params_def idle_def bar_total_def Let_def split: prod.splits)

theorem explicit_total_is_the_bound_witness:
  "1 \<le> cpu_count \<lparr>cpu_count = 8, finish = (\<lambda>i. i), isatty = True\<rparr> \<and>
   (''threading'' = ''parallel'' \<or> ''threading'' = ''threading'') \<and> Take 1 \<noteq> Take 0 \<and>
   (7 :: int) \<noteq> 0 \<and>
   bar_total (parallel \<lparr>cpu_count = 8, finish = (\<lambda>i. i), isatty = True\<rparr> False
                (\<lambda>a::int list. Inr (sum_list a) :: py_error + int) ''threading''
                [SizedSeq [1, 2, 3]] [(''total'', PyInt 7)] (Take 1)) = Some (PyInt 7)"
  using explicit_total_is_the_bound [of "\<lparr>cpu_count = 8, finish = (\<lambda>i. i), isatty = True\<rparr>"
      "''threading''" "Take 1" 7 False "\<lambda>a::int list. Inr (sum_list a) :: py_error + int"
      "[SizedSeq [1, 2, 3]]"]
  by simp

text \<open>
  The ordered parallel map with the default options, drained, on a machine with at
  least one CPU: it yields the results of the items before the first one on which the
  function raises, then raises that exception and yields nothing more; the run that raised
  leaves the pool uncleared.
\<close>

theorem ordered_map_stops_at_first_failure:
  assumes "1 \<le> cpu_count env"
  shows "let r = p_map env f its []; stream = map f (py_zip (map items its)) in
           yielded r = map projr (takeWhile (\<lambda>x. \<not> isl x) stream) \<and>
           outcome r = (case dropWhile (\<lambda>x. \<not> isl x) stream of
                          [] \<Rightarrow> Finished | x # rest \<Rightarrow> Raised (projl x)) \<and>
           leaked r = (outcome r \<noteq> Finished)"
  using assms
  by (auto simp: facade_defs parallel_default pool_imap_def consume_Drain_prefix leaked_def
      Let_def split: list.splits)

theorem ordered_map_stops_at_first_failure_witness:
  "1 \<le> cpu_count \<lparr>cpu_count = 8, finish = (\<lambda>i. i), isatty = True\<rparr> \<and>
   yielded (p_map \<lparr>cpu_count = 8, finish = (\<lambda>i. i), isatty = True\<rparr>
             (\<lambda>a::int list. if a = [2] then Inl (Exception ''boom'') else Inr (sum_list a))
             [SizedSeq [0, 1, 2, 3, 4]] []) = [0, 1] \<and>
   outcome (p_map \<lparr>cpu_count = 8, finish = (\<lambda>i. i), isatty = True\<rparr>
             (\<lambda>a::int list. if a = [2] then Inl (Exception ''boom'') else Inr (sum_list a))
             [SizedSeq [0, 1, 2, 3, 4]] []) = Raised (Exception ''boom'')"
  using ordered_map_stops_at_first_failure
      [of "\<lparr>cpu_count = 8, finish = (\<lambda>i. i), isatty = True\<rparr>"
        "\<lambda>a::int list. if a = [2] then Inl (Exception ''boom'') else Inr (sum_list a)"
        "[SizedSeq [0, 1, 2, 3, 4]]"]
  by (simp add: Let_def zip_eval)

end
